theory Spec2Isabelle
  imports Main "HOL-Library.Word"
begin

unbundle bit_operations_syntax

section \<open>The request builder of package \<open>request\<close>\<close>

text \<open>
  A shallow embedding of \<^verbatim>\<open>request.go\<close> and \<^verbatim>\<open>result.go\<close>.
  Go strings are byte sequences, so they are \<^typ>\<open>string\<close> (lists of 8-bit characters).
  A builder method mutates its receiver and returns it; here it takes the builder's
  state and returns the new state.
\<close>

subsection \<open>Header keys: \<^verbatim>\<open>textproto.CanonicalMIMEHeaderKey\<close>\<close>

text \<open>
  \<^verbatim>\<open>http.Header\<close> canonicalises every key it is given. The functions below follow
  \<^verbatim>\<open>net/textproto/reader.go\<close>: a byte is a header field byte when it is an RFC 7230
  token character; a key with any other byte is left as it is; otherwise the first
  letter and every letter after a dash are made upper case and all others lower case.
\<close>

definition validHeaderFieldByte :: "char \<Rightarrow> bool" where
  "validHeaderFieldByte c =
     (let n = (of_char c :: nat) in
        (48 \<le> n \<and> n \<le> 57) \<or> (97 \<le> n \<and> n \<le> 122) \<or> (65 \<le> n \<and> n \<le> 90) \<or>
        n \<in> {33, 35, 36, 37, 38, 39, 42, 43, 45, 46, 94, 95, 96, 124, 126})"

definition isLowerByte :: "char \<Rightarrow> bool" where
  "isLowerByte c = (97 \<le> (of_char c :: nat) \<and> (of_char c :: nat) \<le> 122)"

definition isUpperByte :: "char \<Rightarrow> bool" where
  "isUpperByte c = (65 \<le> (of_char c :: nat) \<and> (of_char c :: nat) \<le> 90)"

text \<open>\<^verbatim>\<open>const toLower = 'a' - 'A'\<close>\<close>

definition toLower :: nat where
  "toLower = 32"

text \<open>The second loop of \<^verbatim>\<open>canonicalMIMEHeaderKey\<close>, with its flag \<^verbatim>\<open>upper\<close>.\<close>

fun canonLoop :: "bool \<Rightarrow> string \<Rightarrow> string" where
  "canonLoop upper [] = []"
| "canonLoop upper (c # cs) =
     (let c' = (if upper \<and> isLowerByte c then char_of ((of_char c :: nat) - toLower)
                else if \<not> upper \<and> isUpperByte c then char_of ((of_char c :: nat) + toLower)
                else c)
      in c' # canonLoop (c' = CHR ''-'') cs)"

text \<open>
  \<^verbatim>\<open>canonicalMIMEHeaderKey\<close>: the empty key and a key with a byte that is neither a
  field byte nor a space are returned unchanged, and so is a key with a space
  (\<^verbatim>\<open>noCanon\<close>). The final lookup in the table of common headers returns an equal
  string and is left out.
\<close>

definition canonicalMIMEHeaderKey :: "string \<Rightarrow> string" where
  "canonicalMIMEHeaderKey a =
     (if a = [] then []
      else if \<not> list_all (\<lambda>c. validHeaderFieldByte c \<or> c = CHR '' '') a then a
      else if list_ex (\<lambda>c. \<not> validHeaderFieldByte c) a then a
      else canonLoop True a)"

text \<open>
  The quick check of \<^verbatim>\<open>CanonicalMIMEHeaderKey\<close>: \<open>s\<close> is the whole key, the last
  argument what is left of it to scan.
\<close>

fun canonScan :: "string \<Rightarrow> bool \<Rightarrow> string \<Rightarrow> string" where
  "canonScan s upper [] = s"
| "canonScan s upper (c # cs) =
     (if \<not> validHeaderFieldByte c then s
      else if upper \<and> isLowerByte c then canonicalMIMEHeaderKey s
      else if \<not> upper \<and> isUpperByte c then canonicalMIMEHeaderKey s
      else canonScan s (c = CHR ''-'') cs)"

definition CanonicalMIMEHeaderKey :: "string \<Rightarrow> string" where
  "CanonicalMIMEHeaderKey s = canonScan s True s"

text \<open>
  ASCII case folding, to state that the canonical key does not depend on the case of
  the letters: two keys are equal up to case when they agree byte by byte once upper
  case letters are made lower case.
\<close>

definition lowerByte :: "char \<Rightarrow> char" where
  "lowerByte c = (if isUpperByte c then char_of ((of_char c :: nat) + toLower) else c)"

definition equalFold :: "string \<Rightarrow> string \<Rightarrow> bool" where
  "equalFold s t = (map lowerByte s = map lowerByte t)"

subsection \<open>\<^verbatim>\<open>http.Header\<close>\<close>

text \<open>
  \<^verbatim>\<open>type Header map[string][]string\<close>. \<^verbatim>\<open>Set\<close> stores the one-element slice under
  the canonical key, \<^verbatim>\<open>Add\<close> appends to the slice stored there, \<^verbatim>\<open>Get\<close> returns the
  first stored value or the empty string, \<^verbatim>\<open>Values\<close> returns the stored slice.
\<close>

type_synonym Header = "string \<rightharpoonup> string list"

definition Set_h :: "string \<Rightarrow> string \<Rightarrow> Header \<Rightarrow> Header" where
  "Set_h key v h = h(CanonicalMIMEHeaderKey key \<mapsto> [v])"

definition Add_h :: "string \<Rightarrow> string \<Rightarrow> Header \<Rightarrow> Header" where
  "Add_h key v h =
     (let k = CanonicalMIMEHeaderKey key
      in h(k \<mapsto> (case h k of None \<Rightarrow> [] | Some vs \<Rightarrow> vs) @ [v]))"

definition Values_h :: "Header \<Rightarrow> string \<Rightarrow> string list" where
  "Values_h h key = (case h (CanonicalMIMEHeaderKey key) of None \<Rightarrow> [] | Some vs \<Rightarrow> vs)"

definition Get_h :: "Header \<Rightarrow> string \<Rightarrow> string" where
  "Get_h h key =
     (case h (CanonicalMIMEHeaderKey key) of
        None \<Rightarrow> []
      | Some [] \<Rightarrow> []
      | Some (v # _) \<Rightarrow> v)"

subsection \<open>\<^verbatim>\<open>base64.StdEncoding.EncodeToString\<close>\<close>

text \<open>
  \<^verbatim>\<open>encoding/base64\<close>: the alphabet \<^verbatim>\<open>encodeStd\<close>, the padding character, and
  \<^verbatim>\<open>Encode\<close>, which turns each 3 source bytes into 4 characters through a \<^verbatim>\<open>uint\<close>
  and treats a remainder of 1 or 2 bytes apart. The index given to the alphabet is
  masked with \<^verbatim>\<open>0x3F\<close>, so it is below 64, the length of the alphabet.
\<close>

type_synonym uint = "64 word"

definition encodeStd :: string where
  "encodeStd = ''ABCDEFGHIJKLMNOPQRSTUVWXYZabcdefghijklmnopqrstuvwxyz0123456789+/''"

definition StdPadding :: char where
  "StdPadding = CHR ''=''"

definition encode :: "uint \<Rightarrow> char" where
  "encode i = encodeStd ! unat i"

fun Encode :: "string \<Rightarrow> string" where
  "Encode (a # b # c # rest) =
     (let val = push_bit 16 (of_char a :: uint) OR push_bit 8 (of_char b) OR of_char c
      in encode (drop_bit 18 val AND 0x3F) # encode (drop_bit 12 val AND 0x3F) #
         encode (drop_bit 6 val AND 0x3F) # encode (val AND 0x3F) # Encode rest)"
| "Encode [a, b] =
     (let val = push_bit 16 (of_char a :: uint) OR push_bit 8 (of_char b)
      in [encode (drop_bit 18 val AND 0x3F), encode (drop_bit 12 val AND 0x3F),
          encode (drop_bit 6 val AND 0x3F), StdPadding])"
| "Encode [a] =
     (let val = push_bit 16 (of_char a :: uint)
      in [encode (drop_bit 18 val AND 0x3F), encode (drop_bit 12 val AND 0x3F),
          StdPadding, StdPadding])"
| "Encode [] = []"

definition EncodeToString :: "string \<Rightarrow> string" where
  "EncodeToString src = Encode src"

subsection \<open>Base64 as RFC 4648 words it\<close>

text \<open>
  The specification to compare \<^const>\<open>EncodeToString\<close> with, following RFC 4648,
  section 4, and not the code: the input is read as a stream of bits, most
  significant bit of each byte first; the stream is cut into groups of 6 bits, the
  last group filled with zero bits on the right; each group, read as a number, selects
  a character of the alphabet; \<open>=\<close> is appended until the length is a multiple of 4.
\<close>

definition bitsOfByte :: "char \<Rightarrow> bool list" where
  "bitsOfByte c = map (bit (of_char c :: nat)) [7, 6, 5, 4, 3, 2, 1, 0]"

fun sextets :: "bool list \<Rightarrow> bool list list" where
  "sextets (a # b # c # d # e # f # rest) = [a, b, c, d, e, f] # sextets rest"
| "sextets [] = []"
| "sextets bs = [take 6 (bs @ replicate 5 False)]"

definition bitsToNat :: "bool list \<Rightarrow> nat" where
  "bitsToNat bs = horner_sum of_bool 2 (rev bs)"

definition pad4 :: "string \<Rightarrow> string" where
  "pad4 cs = cs @ replicate ((4 - length cs mod 4) mod 4) (CHR ''='')"

definition rfc4648_base64 :: "string \<Rightarrow> string" where
  "rfc4648_base64 s =
     pad4 (map (\<lambda>g. encodeStd ! bitsToNat g) (sextets (concat (map bitsOfByte s))))"

text \<open>
  The 24-bit input group RFC 4648 forms from three bytes, as a number. A final group of
  two bytes or one is the group of those bytes followed by zero bytes.
\<close>

definition group24 :: "char \<Rightarrow> char \<Rightarrow> char \<Rightarrow> nat" where
  "group24 a b c = push_bit 16 (of_char a) OR push_bit 8 (of_char b) OR of_char c"

definition NUL :: char where
  "NUL = char_of (0 :: nat)"

subsection \<open>The builder\<close>

text \<open>
  \<^verbatim>\<open>time.Duration\<close> is an \<^verbatim>\<open>int64\<close> of nanoseconds; the package only stores and copies it.
\<close>

type_synonym Duration = "64 word"

definition DefaultClientTimeout :: Duration where
  "DefaultClientTimeout = 60000000000 * 1"

definition jsonMIME :: string where
  "jsonMIME = ''application/json''"

definition xmlMIME :: string where
  "xmlMIME = ''application/xml''"

text \<open>
  An \<^verbatim>\<open>io.Reader\<close> held as the body: a reader the caller supplied (\<open>Reader\<close>), or the
  read end of the \<^verbatim>\<open>io.Pipe\<close> into which the goroutine started by \<^verbatim>\<open>WithJSONBody\<close> or
  \<^verbatim>\<open>WithXMLBody\<close> encodes \<open>v\<close>. The nil reader is \<open>None\<close>.
\<close>

datatype ('r, 'v) Body = Reader 'r | JSONPipe 'v | XMLPipe 'v

text \<open>
  \<^verbatim>\<open>type Request struct\<close>. A builder is one made by \<^verbatim>\<open>New\<close> and changed by the methods
  below, so its header map is never nil; \<open>timeout\<close> is a pointer, nil when \<open>None\<close>.
\<close>

record ('r, 'v) Request =
  header :: Header
  timeout :: "Duration option"
  body :: "('r, 'v) Body option"

definition New :: "('r, 'v) Request" where
  "New = \<lparr>header = Map.empty, timeout = None, body = None\<rparr>"

definition WithTimeout :: "Duration \<Rightarrow> ('r, 'v) Request \<Rightarrow> ('r, 'v) Request" where
  "WithTimeout d r = r\<lparr>timeout := Some d\<rparr>"

definition WithBody :: "('r, 'v) Body option \<Rightarrow> ('r, 'v) Request \<Rightarrow> ('r, 'v) Request" where
  "WithBody b r = r\<lparr>body := b\<rparr>"

definition WithJSONBody :: "'v \<Rightarrow> ('r, 'v) Request \<Rightarrow> ('r, 'v) Request" where
  "WithJSONBody v r = r\<lparr>body := Some (JSONPipe v), header := Set_h ''Content-Type'' jsonMIME (header r)\<rparr>"

definition WithXMLBody :: "'v \<Rightarrow> ('r, 'v) Request \<Rightarrow> ('r, 'v) Request" where
  "WithXMLBody v r = r\<lparr>body := Some (XMLPipe v), header := Set_h ''Content-Type'' xmlMIME (header r)\<rparr>"

definition WithHeader :: "string \<Rightarrow> string \<Rightarrow> ('r, 'v) Request \<Rightarrow> ('r, 'v) Request" where
  "WithHeader key v r = r\<lparr>header := Set_h key v (header r)\<rparr>"

definition WithMultiValuedHeader :: "string \<Rightarrow> string \<Rightarrow> ('r, 'v) Request \<Rightarrow> ('r, 'v) Request" where
  "WithMultiValuedHeader key v r = r\<lparr>header := Add_h key v (header r)\<rparr>"

definition WithContentType :: "string \<Rightarrow> ('r, 'v) Request \<Rightarrow> ('r, 'v) Request" where
  "WithContentType s r = r\<lparr>header := Set_h ''Content-Type'' s (header r)\<rparr>"

definition WithAccept :: "string \<Rightarrow> ('r, 'v) Request \<Rightarrow> ('r, 'v) Request" where
  "WithAccept s r = r\<lparr>header := Set_h ''Accept'' s (header r)\<rparr>"

text \<open>\<^verbatim>\<open>fmt.Sprintf("%s:%s", username, password)\<close> and \<^verbatim>\<open>fmt.Sprintf("Basic %s", ...)\<close> concatenate.\<close>

definition WithBasicAuth :: "string \<Rightarrow> string \<Rightarrow> ('r, 'v) Request \<Rightarrow> ('r, 'v) Request" where
  "WithBasicAuth username password r =
     (let auth = username @ '':'' @ password
      in r\<lparr>header := Set_h ''Authorization'' (''Basic '' @ EncodeToString auth) (header r)\<rparr>)"

definition WithBearerAuthentication :: "string \<Rightarrow> ('r, 'v) Request \<Rightarrow> ('r, 'v) Request" where
  "WithBearerAuthentication token r =
     r\<lparr>header := Set_h ''Authorization'' (''Bearer '' @ token) (header r)\<rparr>"

subsection \<open>Errors, requests, clients and the world around a send\<close>

text \<open>
  Errors as values: \<open>Errorf msg\<close> is \<^verbatim>\<open>fmt.Errorf(msg)\<close>, \<open>Wrapf prefix err\<close> is
  \<^verbatim>\<open>fmt.Errorf(prefix + "%w", err)\<close>, and \<open>Extern\<close> is an error that comes out of a
  collaborator (\<^verbatim>\<open>net/http\<close>, \<^verbatim>\<open>io\<close>, \<^verbatim>\<open>encoding/json\<close>, \<^verbatim>\<open>encoding/xml\<close>).
\<close>

datatype error = Errorf string | Wrapf string error | Extern string

text \<open>The \<^verbatim>\<open>*http.Request\<close> handed to the client.\<close>

record ('r, 'v) HTTPRequest =
  Method :: string
  URL :: string
  ReqHeader :: Header
  ReqBody :: "('r, 'v) Body option"

text \<open>
  A response body is an \<^verbatim>\<open>io.ReadCloser\<close> living in the world: the bytes it still
  holds, the failure it reports once they are read (\<open>None\<close>: a clean end of file), and
  whether \<^verbatim>\<open>Close\<close> was called on it. An \<^verbatim>\<open>*http.Response\<close> refers to its body by address.
\<close>

record ReadCloser =
  pending :: string
  failure :: "error option"
  closed :: bool

record HTTPResponse =
  StatusCode :: int
  Body :: nat

text \<open>
  An \<^verbatim>\<open>http.Client\<close>: its \<^verbatim>\<open>Timeout\<close> field, and what its \<^verbatim>\<open>Do\<close> answers to a request
  under the timeout in force (\<^verbatim>\<open>http.Client.Do\<close> returns either a response with a
  non-nil body or an error, never both).
\<close>

record ('r, 'v) Client =
  Timeout :: Duration
  RoundTrip :: "Duration \<Rightarrow> ('r, 'v) HTTPRequest \<Rightarrow> error + HTTPResponse"

text \<open>
  The world: the heap of clients (\<^verbatim>\<open>*http.Client\<close> is an address), the response body
  streams, and the log of the requests handed to a client, oldest first, each with the
  timeout of the client at that moment.
\<close>

record ('r, 'v) World =
  clients :: "nat \<Rightarrow> ('r, 'v) Client"
  bodies :: "nat \<Rightarrow> ReadCloser"
  sent :: "(Duration \<times> ('r, 'v) HTTPRequest) list"

text \<open>A \<^verbatim>\<open>context.Context\<close>, reduced to the client attached to it, if any.\<close>

record Context =
  attached :: "nat option"

text \<open>
  Modelled from the spec: \<^verbatim>\<open>clientFromContext\<close>, which \<^verbatim>\<open>Do\<close> calls and whose file is
  not among the sources. The spec: the client is "resolved from \<open>context\<close> (attached
  client if present, else a process-wide default with a fixed default timeout)". The
  default client is the one at address \<open>defaultClient\<close>.
\<close>

definition defaultClient :: nat where
  "defaultClient = 0"

definition clientFromContext :: "Context \<Rightarrow> nat" where
  "clientFromContext ctx = (case attached ctx of Some c \<Rightarrow> c | None \<Rightarrow> defaultClient)"

text \<open>
  \<^verbatim>\<open>http.NewRequestWithContext\<close>: the empty method means \<^verbatim>\<open>GET\<close>; a method that is not a
  token is refused; then the URL is parsed, by \<open>urlParse\<close>, a parameter (\<open>Some err\<close>
  when \<^verbatim>\<open>url.Parse\<close> fails). A \<^typ>\<open>Context\<close> is never nil.
\<close>

definition validMethod :: "string \<Rightarrow> bool" where
  "validMethod method = (0 < length method \<and> list_all validHeaderFieldByte method)"

definition NewRequestWithContext ::
  "(string \<Rightarrow> error option) \<Rightarrow> string \<Rightarrow> string \<Rightarrow> ('r, 'v) Body option \<Rightarrow> error + ('r, 'v) HTTPRequest" where
  "NewRequestWithContext urlParse method url b =
     (let method' = (if method = [] then ''GET'' else method)
      in if \<not> validMethod method' then Inl (Extern ''net/http: invalid method'')
         else case urlParse url of
                Some err \<Rightarrow> Inl err
              | None \<Rightarrow> Inr \<lparr>Method = method', URL = url, ReqHeader = Map.empty, ReqBody = b\<rparr>)"

text \<open>\<^verbatim>\<open>c.Do(req)\<close> for the client at address \<open>c\<close>.\<close>

definition Client_Do ::
  "nat \<Rightarrow> ('r, 'v) HTTPRequest \<Rightarrow> ('r, 'v) World \<Rightarrow> (error + HTTPResponse) \<times> ('r, 'v) World" where
  "Client_Do c req w =
     (RoundTrip (clients w c) (Timeout (clients w c)) req,
      w\<lparr>sent := sent w @ [(Timeout (clients w c), req)]\<rparr>)"

text \<open>\<^verbatim>\<open>func (r *Request) Do(ctx, method, url)\<close>\<close>

definition Request_Do ::
  "(string \<Rightarrow> error option) \<Rightarrow> ('r, 'v) Request \<Rightarrow> Context \<Rightarrow> string \<Rightarrow> string \<Rightarrow>
     ('r, 'v) World \<Rightarrow> (error + HTTPResponse) \<times> ('r, 'v) World" where
  "Request_Do urlParse r ctx method url w =
     (case NewRequestWithContext urlParse method url (body r) of
        Inl err \<Rightarrow> (Inl err, w)
      | Inr req0 \<Rightarrow>
          (let req = req0\<lparr>ReqHeader := header r\<rparr>;
               c = clientFromContext ctx;
               w1 = (case timeout r of
                       None \<Rightarrow> w
                     | Some d \<Rightarrow> w\<lparr>clients := (clients w)(c := (clients w c)\<lparr>Timeout := d\<rparr>)\<rparr>)
           in Client_Do c req w1))"

subsection \<open>The result wrapper\<close>

record Result =
  Response :: HTTPResponse
  RawData :: string

text \<open>
  \<^verbatim>\<open>type WithResult struct\<close>: \<open>req\<close> is a pointer, nil when \<open>None\<close>; the builder it
  points to is held by its state. \<open>unmarshal\<close> is a function value, nil when \<open>None\<close>.
\<close>

record ('r, 'v) WithResult =
  req :: "('r, 'v) Request option"
  unmarshal :: "(string \<Rightarrow> error option) option"

text \<open>
  \<^verbatim>\<open>func (r *Request) WithResult()\<close> stores its receiver and never dereferences it, so
  it is given the pointer: on a nil \<^verbatim>\<open>*Request\<close> (\<open>None\<close>) it returns a wrapper whose
  \<open>req\<close> is nil.
\<close>

definition Request_WithResult :: "('r, 'v) Request option \<Rightarrow> ('r, 'v) WithResult" where
  "Request_WithResult r = \<lparr>req = r, unmarshal = None\<rparr>"

text \<open>
  \<^verbatim>\<open>WithJSONResult(v)\<close> and \<^verbatim>\<open>WithXMLResult(v)\<close> on the builder their receiver points to:
  the argument \<open>dec\<close> stands for \<^verbatim>\<open>json.Unmarshal(data, v)\<close> (\<^verbatim>\<open>xml.Unmarshal(data, v)\<close>)
  as a function of \<open>data\<close>, \<open>Some err\<close> when it fails.
\<close>

definition WithJSONResult :: "(string \<Rightarrow> error option) \<Rightarrow> ('r, 'v) Request \<Rightarrow> ('r, 'v) WithResult" where
  "WithJSONResult dec r =
     (let r' = (if Get_h (header r) ''Accept'' = [] then r\<lparr>header := Set_h ''Accept'' jsonMIME (header r)\<rparr> else r)
      in \<lparr>req = Some r',
          unmarshal = Some (\<lambda>data. case dec data of
                                      Some err \<Rightarrow> Some (Wrapf ''request: unmarshal JSON: '' err)
                                    | None \<Rightarrow> None)\<rparr>)"





text \<open>\<^verbatim>\<open>io.ReadAll\<close> on the stream at address \<open>b\<close>, and \<^verbatim>\<open>Close\<close> on it.\<close>

definition ReadAll :: "nat \<Rightarrow> ('r, 'v) World \<Rightarrow> (error + string) \<times> ('r, 'v) World" where
  "ReadAll b w =
     ((case failure (bodies w b) of Some err \<Rightarrow> Inl err | None \<Rightarrow> Inr (pending (bodies w b))),
      w\<lparr>bodies := (bodies w)(b := (bodies w b)\<lparr>pending := []\<rparr>)\<rparr>)"

definition Close :: "nat \<Rightarrow> ('r, 'v) World \<Rightarrow> ('r, 'v) World" where
  "Close b w = w\<lparr>bodies := (bodies w)(b := (bodies w b)\<lparr>closed := True\<rparr>)\<rparr>"

text \<open>
  \<^verbatim>\<open>func (wr *WithResult) Do(ctx, method, url)\<close>. The deferred \<^verbatim>\<open>resp.Body.Close()\<close>
  runs when the function returns, on each path after the \<^verbatim>\<open>defer\<close> statement.
\<close>

definition WithResult_Do ::
  "(string \<Rightarrow> error option) \<Rightarrow> ('r, 'v) WithResult \<Rightarrow> Context \<Rightarrow> string \<Rightarrow> string \<Rightarrow>
     ('r, 'v) World \<Rightarrow> (error + Result) \<times> ('r, 'v) World" where
  "WithResult_Do urlParse wr ctx method url w =
     (case req wr of
        None \<Rightarrow> (Inl (Errorf ''request: missing request''), w)
      | Some r \<Rightarrow>
          (case Request_Do urlParse r ctx method url w of
             (Inl err, w1) \<Rightarrow> (Inl err, w1)
           | (Inr resp, w1) \<Rightarrow>
               (let (res, w3) =
                      (case ReadAll (Body resp) w1 of
                         (Inl err, w2) \<Rightarrow> (Inl (Wrapf ''request: read response body: '' err), w2)
                       | (Inr data, w2) \<Rightarrow>
                           (case unmarshal wr of
                              None \<Rightarrow> (Inr \<lparr>Response = resp, RawData = data\<rparr>, w2)
                            | Some f \<Rightarrow>
                                (case f data of
                                   Some err \<Rightarrow> (Inl err, w2)
                                 | None \<Rightarrow> (Inr \<lparr>Response = resp, RawData = data\<rparr>, w2))))
                in (res, Close (Body resp) w3))))"

subsection \<open>Sequences of builder calls\<close>

text \<open>The calls that set headers, and the calls that set the body, as data, applied in order.\<close>

fun WithHeaders :: "(string \<times> string) list \<Rightarrow> ('r, 'v) Request \<Rightarrow> ('r, 'v) Request" where
  "WithHeaders [] r = r"
| "WithHeaders ((key, v) # kvs) r = WithHeaders kvs (WithHeader key v r)"

fun WithMultiValuedHeaders :: "(string \<times> string) list \<Rightarrow> ('r, 'v) Request \<Rightarrow> ('r, 'v) Request" where
  "WithMultiValuedHeaders [] r = r"
| "WithMultiValuedHeaders ((key, v) # kvs) r = WithMultiValuedHeaders kvs (WithMultiValuedHeader key v r)"

datatype ('r, 'v) BodyCall =
  is_CallWithBody: CallWithBody "('r, 'v) Body option"
| is_CallWithJSONBody: CallWithJSONBody 'v
| is_CallWithXMLBody: CallWithXMLBody 'v

fun callBody :: "('r, 'v) BodyCall \<Rightarrow> ('r, 'v) Request \<Rightarrow> ('r, 'v) Request" where
  "callBody (CallWithBody b) r = WithBody b r"
| "callBody (CallWithJSONBody v) r = WithJSONBody v r"
| "callBody (CallWithXMLBody v) r = WithXMLBody v r"

fun callBodies :: "('r, 'v) BodyCall list \<Rightarrow> ('r, 'v) Request \<Rightarrow> ('r, 'v) Request" where
  "callBodies [] r = r"
| "callBodies (c # cs) r = callBodies cs (callBody c r)"

subsection \<open>An example world\<close>

text \<open>
  After the example of the package: a client with a timeout of five seconds whose
  transport answers every request with status 200, attached to the context. The body of
  the answer is the stream at address 0. In \<open>exampleWorld\<close> that stream reads cleanly; in
  \<open>brokenWorld\<close> it fails while being read.
\<close>

definition exampleClient :: "(nat, nat) Client" where
  "exampleClient =
     \<lparr>Timeout = 5000000000, RoundTrip = (\<lambda>d rq. Inr \<lparr>StatusCode = 200, Body = 0\<rparr>)\<rparr>"

definition exampleWorld :: "(nat, nat) World" where
  "exampleWorld =
     \<lparr>clients = (\<lambda>a. exampleClient),
      bodies = (\<lambda>a. \<lparr>pending = ''not json'', failure = None, closed = False\<rparr>),
      sent = []\<rparr>"

definition brokenWorld :: "(nat, nat) World" where
  "brokenWorld =
     \<lparr>clients = (\<lambda>a. exampleClient),
      bodies = (\<lambda>a. \<lparr>pending = ''not'', failure = Some (Extern ''unexpected EOF''), closed = False\<rparr>),
      sent = []\<rparr>"

definition exampleCtx :: Context where
  "exampleCtx = \<lparr>attached = Some 1\<rparr>"

text \<open>A URL parser that accepts every URL, and a decoder that accepts only \<open>ok\<close>.\<close>

definition anyURL :: "string \<Rightarrow> error option" where
  "anyURL u = None"

definition strictDecoder :: "string \<Rightarrow> error option" where
  "strictDecoder data = (if data = ''ok'' then None else Some (Extern ''invalid character''))"

section \<open>Properties\<close>

subsection \<open>Evaluation and header laws\<close>

lemmas canon_eval =
  CanonicalMIMEHeaderKey_def canonicalMIMEHeaderKey_def validHeaderFieldByte_def
  isLowerByte_def isUpperByte_def toLower_def Let_def char_of_def bit_Suc_0_iff

lemma Values_Set_h:
  "CanonicalMIMEHeaderKey k = CanonicalMIMEHeaderKey key \<Longrightarrow> Values_h (Set_h k v h) key = [v]"
  by (simp add: Values_h_def Set_h_def)

lemma Get_Set_h:
  "CanonicalMIMEHeaderKey k = CanonicalMIMEHeaderKey key \<Longrightarrow> Get_h (Set_h k v h) key = v"
  by (simp add: Get_h_def Set_h_def)

lemma Values_Add_h:
  "CanonicalMIMEHeaderKey k = CanonicalMIMEHeaderKey key \<Longrightarrow>
     Values_h (Add_h k v h) key = Values_h h key @ [v]"
  by (simp add: Values_h_def Add_h_def Let_def)

lemma Values_Set_h_other:
  "CanonicalMIMEHeaderKey k \<noteq> CanonicalMIMEHeaderKey key \<Longrightarrow>
     Values_h (Set_h k v h) key = Values_h h key"
  by (simp add: Values_h_def Set_h_def)

subsection \<open>The canonical key ignores case\<close>

text \<open>
  \<^const>\<open>CanonicalMIMEHeaderKey\<close> canonicalises a key exactly when all its bytes are header
  field bytes, and then the result depends on the key only up to the case of its
  letters: two such keys that are equal up to case have the same canonical key.
\<close>

lemma of_char_less_256: "(of_char c :: nat) < 256"
proof -
  have "(of_char c :: nat) mod 256 = of_char c" by simp
  then show ?thesis by (metis mod_less_divisor zero_less_numeral)
qed

lemma char_eq_iff_of_char: "c = d \<longleftrightarrow> (of_char c :: nat) = of_char d"
  by simp

lemma of_char_char_of_small: "n < 256 \<Longrightarrow> (of_char (char_of (n :: nat)) :: nat) = n"
  by simp

lemma of_char_lowerByte:
  "(of_char (lowerByte c) :: nat) = (if isUpperByte c then of_char c + 32 else of_char c)"
  using of_char_less_256 [of c]
  by (simp add: lowerByte_def isUpperByte_def toLower_def)

lemma lowerByte_eq_nat:
  "lowerByte c = lowerByte d \<longleftrightarrow>
     (if isUpperByte c then (of_char c :: nat) + 32 else of_char c)
       = (if isUpperByte d then (of_char d :: nat) + 32 else of_char d)"
  using of_char_lowerByte [of c] of_char_lowerByte [of d]
  by (metis of_char_eq_iff)

lemma canon_step_fold:
  assumes "lowerByte c = lowerByte d"
  shows "(if upper \<and> isLowerByte c then char_of ((of_char c :: nat) - toLower)
          else if \<not> upper \<and> isUpperByte c then char_of ((of_char c :: nat) + toLower)
          else c)
       = (if upper \<and> isLowerByte d then char_of ((of_char d :: nat) - toLower)
          else if \<not> upper \<and> isUpperByte d then char_of ((of_char d :: nat) + toLower)
          else d)"
proof -
  from assms have e: "(if isUpperByte c then (of_char c :: nat) + 32 else of_char c)
       = (if isUpperByte d then (of_char d :: nat) + 32 else of_char d)"
    by (simp add: lowerByte_eq_nat)
  have "(of_char (if upper \<and> isLowerByte c then char_of ((of_char c :: nat) - toLower)
          else if \<not> upper \<and> isUpperByte c then char_of ((of_char c :: nat) + toLower)
          else c) :: nat)
       = of_char (if upper \<and> isLowerByte d then char_of ((of_char d :: nat) - toLower)
          else if \<not> upper \<and> isUpperByte d then char_of ((of_char d :: nat) + toLower)
          else d)"
    using e of_char_less_256 [of c] of_char_less_256 [of d]
    by (auto simp add: isLowerByte_def isUpperByte_def toLower_def simp del: of_char_eq_iff
        split: if_splits)
  then show ?thesis by (simp only: of_char_eq_iff)
qed

lemma valid_fold:
  assumes "lowerByte c = lowerByte d"
  shows "validHeaderFieldByte c = validHeaderFieldByte d"
proof (cases "isUpperByte c \<or> isUpperByte d")
  case False
  with assms have "c = d" by (simp add: lowerByte_def)
  then show ?thesis by simp
next
  case True
  from assms have e: "(if isUpperByte c then (of_char c :: nat) + 32 else of_char c)
       = (if isUpperByte d then (of_char d :: nat) + 32 else of_char d)"
    by (simp add: lowerByte_eq_nat)
  with True show ?thesis
    by (auto simp add: validHeaderFieldByte_def isUpperByte_def Let_def simp del: of_char_eq_iff
        split: if_splits)
qed

lemma canonLoop_fold:
  "map lowerByte s = map lowerByte t \<Longrightarrow> canonLoop upper s = canonLoop upper t"
proof (induction s arbitrary: t upper)
  case Nil
  then show ?case by simp
next
  case (Cons c s)
  then obtain d t' where t: "t = d # t'" and cd: "lowerByte c = lowerByte d"
    and r: "map lowerByte s = map lowerByte t'"
    by (cases t) auto
  from canon_step_fold [OF cd, of upper] Cons.IH [OF r] t show ?case
    by (simp add: Let_def)
qed

lemma list_all_valid_fold:
  "map lowerByte s = map lowerByte t \<Longrightarrow>
     list_all validHeaderFieldByte s = list_all validHeaderFieldByte t"
proof (induction s arbitrary: t)
  case Nil
  then show ?case by simp
next
  case (Cons c s)
  then obtain d t' where t: "t = d # t'" and cd: "lowerByte c = lowerByte d"
    and r: "map lowerByte s = map lowerByte t'"
    by (cases t) auto
  from valid_fold [OF cd] Cons.IH [OF r] t show ?case by simp
qed

lemma canonicalMIMEHeaderKey_char:
  "canonicalMIMEHeaderKey s = (if list_all validHeaderFieldByte s then canonLoop True s else s)"
  by (auto simp add: canonicalMIMEHeaderKey_def list_all_iff list_ex_iff)

lemma canonScan_char:
  assumes "list_all validHeaderFieldByte pre"
    and "canonLoop True (pre @ rest) = pre @ canonLoop upper rest"
  shows "canonScan (pre @ rest) upper rest
       = (if list_all validHeaderFieldByte (pre @ rest) then canonLoop True (pre @ rest) else pre @ rest)"
  using assms
proof (induction rest arbitrary: pre upper)
  case Nil
  then show ?case by simp
next
  case (Cons c cs)
  show ?case
  proof (cases "validHeaderFieldByte c \<and> \<not> (upper \<and> isLowerByte c) \<and> \<not> (\<not> upper \<and> isUpperByte c)")
    case False
    then show ?thesis
      by (auto simp add: canonicalMIMEHeaderKey_char)
  next
    case True
    then have u: "canonLoop upper (c # cs) = c # canonLoop (c = CHR ''-'') cs"
      by (auto simp add: Let_def)
    have p: "list_all validHeaderFieldByte (pre @ [c])"
      using Cons.prems(1) True by simp
    have q: "canonLoop True ((pre @ [c]) @ cs) = (pre @ [c]) @ canonLoop (c = CHR ''-'') cs"
      using Cons.prems(2) u by simp
    have "canonScan (pre @ c # cs) upper (c # cs) = canonScan (pre @ c # cs) (c = CHR ''-'') cs"
      using True by auto
    with Cons.IH [OF p q] True show ?thesis by simp
  qed
qed

lemma CanonicalMIMEHeaderKey_char:
  "CanonicalMIMEHeaderKey s = (if list_all validHeaderFieldByte s then canonLoop True s else s)"
  using canonScan_char [of "[]" s True] by (simp add: CanonicalMIMEHeaderKey_def)

lemma CanonicalMIMEHeaderKey_equalFold:
  assumes "list_all validHeaderFieldByte s" and "equalFold s t"
  shows "CanonicalMIMEHeaderKey s = CanonicalMIMEHeaderKey t"
  using assms list_all_valid_fold [of s t] canonLoop_fold [of s t True]
  by (simp add: CanonicalMIMEHeaderKey_char equalFold_def)

subsection \<open>The single-value header setter\<close>

text \<open>
  C7. After any non-empty sequence of \<^verbatim>\<open>WithHeader\<close> calls whose keys all canonicalise
  to the canonical form of \<open>key\<close>, on any builder (whatever it held for that key
  before), reading \<open>key\<close> gives exactly one value, the value of the last call:
  \<^verbatim>\<open>Values\<close> is that one-element list and \<^verbatim>\<open>Get\<close> is that value. The casing of the keys
  enters only through \<^const>\<open>CanonicalMIMEHeaderKey\<close>, which gives keys of header field
  bytes that are equal up to case the same canonical form (\<open>CanonicalMIMEHeaderKey_equalFold\<close>).
\<close>

theorem WithHeader_last_value:
  assumes "kvs \<noteq> []"
    and "\<forall>(k, v) \<in> set kvs. CanonicalMIMEHeaderKey k = CanonicalMIMEHeaderKey key"
  shows "Values_h (header (WithHeaders kvs r)) key = [snd (last kvs)]
       \<and> Get_h (header (WithHeaders kvs r)) key = snd (last kvs)"
  using assms
proof (induction kvs arbitrary: r)
  case Nil
  then show ?case by simp
next
  case (Cons kv kvs)
  obtain k v where kv: "kv = (k, v)" by (cases kv)
  show ?case
  proof (cases "kvs = []")
    case True
    with Cons.prems kv show ?thesis
      by (simp add: WithHeader_def Values_Set_h Get_Set_h)
  next
    case False
    with Cons.prems
    have "Values_h (header (WithHeaders kvs (WithHeader k v r))) key = [snd (last kvs)]
        \<and> Get_h (header (WithHeaders kvs (WithHeader k v r))) key = snd (last kvs)"
      by (intro Cons.IH) auto
    with False kv show ?thesis by simp
  qed
qed

theorem WithHeader_last_value_witness:
  "CanonicalMIMEHeaderKey ''x-trace-id'' = CanonicalMIMEHeaderKey ''x-Trace-id''
   \<and> CanonicalMIMEHeaderKey ''X-TRACE-ID'' = CanonicalMIMEHeaderKey ''x-Trace-id''
   \<and> Values_h (header (WithHeaders [(''x-trace-id'', ''one''), (''X-TRACE-ID'', ''two'')]
        (WithMultiValuedHeader ''X-Trace-ID'' ''zero''
          (WithMultiValuedHeader ''X-Trace-ID'' ''null'' (New :: (nat, nat) Request))))) ''x-Trace-id''
     = [''two'']"
  using WithHeader_last_value [of "[(''x-trace-id'', ''one''), (''X-TRACE-ID'', ''two'')]"
      "''x-Trace-id''"
      "WithMultiValuedHeader ''X-Trace-ID'' ''zero''
         (WithMultiValuedHeader ''X-Trace-ID'' ''null'' (New :: (nat, nat) Request))"]
  by (simp add: canon_eval)

subsection \<open>The multi-value header setter\<close>

text \<open>
  C8. After any sequence of \<^verbatim>\<open>WithMultiValuedHeader\<close> calls whose keys all canonicalise
  to the canonical form of \<open>key\<close>, reading \<open>key\<close> gives the values the builder held
  before followed by all the added values in the order of the calls: none is
  overwritten or removed.
\<close>

theorem WithMultiValuedHeader_keeps_all:
  assumes "\<forall>(k, v) \<in> set kvs. CanonicalMIMEHeaderKey k = CanonicalMIMEHeaderKey key"
  shows "Values_h (header (WithMultiValuedHeaders kvs r)) key
       = Values_h (header r) key @ map snd kvs"
  using assms
proof (induction kvs arbitrary: r)
  case Nil
  then show ?case by simp
next
  case (Cons kv kvs)
  obtain k v where kv: "kv = (k, v)" by (cases kv)
  from Cons.prems kv have k: "CanonicalMIMEHeaderKey k = CanonicalMIMEHeaderKey key" by simp
  from Cons.prems
  have "Values_h (header (WithMultiValuedHeaders kvs (WithMultiValuedHeader k v r))) key
      = Values_h (header (WithMultiValuedHeader k v r)) key @ map snd kvs"
    by (intro Cons.IH) auto
  with kv k show ?case
    by (simp add: WithMultiValuedHeader_def Values_Add_h)
qed

theorem WithMultiValuedHeader_keeps_all_witness:
  "CanonicalMIMEHeaderKey ''accept'' = CanonicalMIMEHeaderKey ''aCCEPT''
   \<and> CanonicalMIMEHeaderKey ''ACCEPT'' = CanonicalMIMEHeaderKey ''aCCEPT''
   \<and> Values_h (header (WithMultiValuedHeaders
        [(''accept'', ''text/html''), (''ACCEPT'', ''text/plain''), (''accept'', ''text/html'')]
        (New :: (nat, nat) Request))) ''aCCEPT''
     = [''text/html'', ''text/plain'', ''text/html'']"
  using WithMultiValuedHeader_keeps_all
      [of "[(''accept'', ''text/html''), (''ACCEPT'', ''text/plain''), (''accept'', ''text/html'')]"
       "''aCCEPT''" "New :: (nat, nat) Request"]
  by (simp add: canon_eval New_def Values_h_def)

subsection \<open>The send of the result wrapper\<close>

lemmas world_eval =
  exampleClient_def exampleWorld_def brokenWorld_def exampleCtx_def anyURL_def strictDecoder_def
  Request_Do_def Client_Do_def NewRequestWithContext_def validMethod_def validHeaderFieldByte_def
  clientFromContext_def ReadAll_def Close_def WithResult_Do_def New_def Let_def

text \<open>
  C4. When the wrapper has a builder, the builder's send succeeds, the body is read to
  its end, a decode function is set and it fails on the bytes read, then
  \<^verbatim>\<open>WithResult.Do\<close> fails with the error the decode function returned: its outcome is
  that error and no \<^typ>\<open>Result\<close>, so neither the response nor the raw bytes reach the
  caller. (The body is closed on this path as well.)
\<close>

theorem WithResult_Do_decode_failure:
  assumes "req wr = Some r"
    and "Request_Do urlParse r ctx method url w = (Inr resp, w1)"
    and "ReadAll (Body resp) w1 = (Inr data, w2)"
    and "unmarshal wr = Some f"
    and "f data = Some err"
  shows "WithResult_Do urlParse wr ctx method url w = (Inl err, Close (Body resp) w2)"
  using assms by (simp add: WithResult_Do_def)

theorem WithResult_Do_decode_failure_witness:
  "fst (WithResult_Do anyURL (WithJSONResult strictDecoder New) exampleCtx ''POST'' ''http://localhost'' exampleWorld)
     = Inl (Wrapf ''request: unmarshal JSON: '' (Extern ''invalid character''))"
proof -
  let ?wr = "WithJSONResult strictDecoder (New :: (nat, nat) Request)"
  let ?r = "WithAccept jsonMIME (New :: (nat, nat) Request)"
  have r: "req ?wr = Some ?r"
    by (simp add: WithJSONResult_def WithAccept_def Get_h_def New_def canon_eval)
  obtain f where f: "unmarshal ?wr = Some f"
    and fd: "f ''not json'' = Some (Wrapf ''request: unmarshal JSON: '' (Extern ''invalid character''))"
    by (simp add: WithJSONResult_def Let_def strictDecoder_def)
  obtain w1 where d: "Request_Do anyURL ?r exampleCtx ''POST'' ''http://localhost'' exampleWorld
      = (Inr \<lparr>StatusCode = 200, Body = 0\<rparr>, w1)" and b: "bodies w1 = bodies exampleWorld"
    by (simp add: world_eval WithAccept_def)
  obtain w2 where ra: "ReadAll (Body \<lparr>StatusCode = 200, Body = 0\<rparr>) w1 = (Inr ''not json'', w2)"
    using b by (simp add: ReadAll_def exampleWorld_def)
  from WithResult_Do_decode_failure [OF r d ra f fd] show ?thesis by simp
qed

text \<open>
  C5. When the wrapper has a builder and the builder's send succeeds with a response,
  the body of that response is closed in the world \<^verbatim>\<open>WithResult.Do\<close> leaves behind,
  whatever happens after the send: the read succeeds or fails, the decode succeeds,
  fails or is absent. When the stream reports a failure \<open>e\<close> while being read, the
  outcome is the error \<^verbatim>\<open>request: read response body: \<close> wrapping \<open>e\<close>.
\<close>

theorem WithResult_Do_closes_body:
  assumes "req wr = Some r"
    and "Request_Do urlParse r ctx method url w = (Inr resp, w1)"
  shows "closed (bodies (snd (WithResult_Do urlParse wr ctx method url w)) (Body resp))
       \<and> (\<forall>e. failure (bodies w1 (Body resp)) = Some e \<longrightarrow>
            fst (WithResult_Do urlParse wr ctx method url w)
              = Inl (Wrapf ''request: read response body: '' e))"
  using assms
  by (auto simp add: WithResult_Do_def ReadAll_def Close_def Let_def split: option.splits prod.splits sum.splits)

theorem WithResult_Do_closes_body_witness:
  "closed (bodies (snd (WithResult_Do anyURL (Request_WithResult (Some New)) exampleCtx ''GET'' ''http://localhost'' brokenWorld)) 0)
   \<and> fst (WithResult_Do anyURL (Request_WithResult (Some New)) exampleCtx ''GET'' ''http://localhost'' brokenWorld)
       = Inl (Wrapf ''request: read response body: '' (Extern ''unexpected EOF''))"
proof -
  let ?r = "New :: (nat, nat) Request"
  have r: "req (Request_WithResult (Some ?r)) = Some ?r" by (simp add: Request_WithResult_def)
  obtain w1 where d: "Request_Do anyURL ?r exampleCtx ''GET'' ''http://localhost'' brokenWorld
      = (Inr \<lparr>StatusCode = 200, Body = 0\<rparr>, w1)" and b: "bodies w1 = bodies brokenWorld"
    by (simp add: world_eval)
  from b have f: "failure (bodies w1 0) = Some (Extern ''unexpected EOF'')"
    by (simp add: brokenWorld_def)
  from WithResult_Do_closes_body [OF r d] f show ?thesis by simp
qed





subsection \<open>The Accept header of a JSON result\<close>

lemma Get_h_empty_iff:
  "Get_h h key = [] \<longleftrightarrow> (Values_h h key = [] \<or> hd (Values_h h key) = [])"
  by (simp add: Get_h_def Values_h_def split: option.splits list.splits)

text \<open>
  C2, as stated, fails. A builder on which \<^verbatim>\<open>WithAccept("")\<close> was called has an Accept
  value, the empty string, and \<^verbatim>\<open>WithJSONResult\<close> replaces it by \<^verbatim>\<open>application/json\<close>.
  A builder whose Accept values are the empty string followed by \<^verbatim>\<open>text/html\<close> loses
  both to \<^verbatim>\<open>application/json\<close>: the test of the code is \<^verbatim>\<open>header.Get("Accept") == ""\<close>,
  which looks at the first value only.
\<close>

theorem WithJSONResult_Accept_counterexample:
  "Values_h (header (WithAccept '''' (New :: (nat, nat) Request))) ''Accept'' = ['''']
   \<and> Values_h (header (the (req (WithJSONResult strictDecoder
          (WithAccept '''' (New :: (nat, nat) Request)))))) ''Accept'' = [''application/json'']
   \<and> Values_h (header (WithMultiValuedHeader ''Accept'' ''text/html''
          (WithAccept '''' (New :: (nat, nat) Request)))) ''Accept'' = ['''', ''text/html'']
   \<and> Values_h (header (the (req (WithJSONResult strictDecoder
          (WithMultiValuedHeader ''Accept'' ''text/html''
            (WithAccept '''' (New :: (nat, nat) Request))))))) ''Accept'' = [''application/json'']"
  by (simp add: WithJSONResult_def WithAccept_def WithMultiValuedHeader_def New_def jsonMIME_def
      Values_h_def Get_h_def Set_h_def Add_h_def canon_eval)

text \<open>
  C2, amended. \<^verbatim>\<open>WithJSONResult\<close> returns a wrapper of the builder, and on that builder:
  when \<^verbatim>\<open>header.Get("Accept")\<close> is the empty string, the Accept header becomes the single
  value \<^verbatim>\<open>application/json\<close>; when it is not, the whole header is left as it was.
  \<^verbatim>\<open>Get\<close> is the empty string exactly when no Accept value is stored or the first one
  stored is empty. The other header keys, the timeout and the body are never changed.
\<close>

theorem WithJSONResult_Accept:
  "req (WithJSONResult dec r) \<noteq> None
   \<and> (Get_h (header r) ''Accept'' = [] \<longrightarrow>
        Values_h (header (the (req (WithJSONResult dec r)))) ''Accept'' = [''application/json''])
   \<and> (Get_h (header r) ''Accept'' \<noteq> [] \<longrightarrow>
        header (the (req (WithJSONResult dec r))) = header r)
   \<and> (Get_h (header r) ''Accept'' = [] \<longleftrightarrow>
        (Values_h (header r) ''Accept'' = [] \<or> hd (Values_h (header r) ''Accept'') = []))
   \<and> (CanonicalMIMEHeaderKey k \<noteq> CanonicalMIMEHeaderKey ''Accept'' \<longrightarrow>
        Values_h (header (the (req (WithJSONResult dec r)))) k = Values_h (header r) k)
   \<and> timeout (the (req (WithJSONResult dec r))) = timeout r
   \<and> body (the (req (WithJSONResult dec r))) = body r"
  using Get_h_empty_iff [of "header r" "''Accept''"]
  by (simp add: WithJSONResult_def Let_def jsonMIME_def Values_Set_h Values_Set_h_other)

theorem WithJSONResult_Accept_witness:
  "Get_h (header (New :: (nat, nat) Request)) ''Accept'' = []
   \<and> Values_h (header (the (req (WithJSONResult strictDecoder (New :: (nat, nat) Request))))) ''Accept''
       = [''application/json'']
   \<and> Get_h (header (WithAccept ''text/html'' (New :: (nat, nat) Request))) ''Accept'' = ''text/html''
   \<and> Values_h (header (the (req (WithJSONResult strictDecoder
          (WithAccept ''text/html'' (New :: (nat, nat) Request)))))) ''Accept'' = [''text/html'']"
proof -
  let ?n = "New :: (nat, nat) Request"
  have a: "Get_h (header ?n) ''Accept'' = []"
    by (simp add: New_def Get_h_def)
  have b: "Get_h (header (WithAccept ''text/html'' ?n)) ''Accept'' = ''text/html''"
    by (simp add: WithAccept_def Get_Set_h)
  have c: "Values_h (header (WithAccept ''text/html'' ?n)) ''Accept'' = [''text/html'']"
    by (simp add: WithAccept_def Values_Set_h)
  from WithJSONResult_Accept [of strictDecoder ?n "''Content-Type''"]
       WithJSONResult_Accept [of strictDecoder "WithAccept ''text/html'' ?n" "''Content-Type''"]
       a b c
  show ?thesis by simp
qed

subsection \<open>The timeout override of the send\<close>

lemma Request_Do_clients:
  "clients (snd (Request_Do urlParse r ctx method url w)) =
     (case NewRequestWithContext urlParse method url (body r) of
        Inl err \<Rightarrow> clients w
      | Inr rq \<Rightarrow> (case timeout r of
          None \<Rightarrow> clients w
        | Some d \<Rightarrow> (clients w)(clientFromContext ctx := (clients w (clientFromContext ctx))\<lparr>Timeout := d\<rparr>)))"
  by (simp add: Request_Do_def Client_Do_def Let_def split: sum.splits option.splits)

lemma Request_Do_sent:
  "sent (snd (Request_Do urlParse r ctx method url w)) =
     (case NewRequestWithContext urlParse method url (body r) of
        Inl err \<Rightarrow> sent w
      | Inr rq \<Rightarrow> sent w @ [(case timeout r of None \<Rightarrow> Timeout (clients w (clientFromContext ctx)) | Some d \<Rightarrow> d,
                            rq\<lparr>ReqHeader := header r\<rparr>)])"
  by (simp add: Request_Do_def Client_Do_def Let_def split: sum.splits option.splits)

text \<open>
  C3, as stated, fails. On a builder with an override of ten seconds, a send with a
  method that is not a token returns the error of \<^verbatim>\<open>http.NewRequestWithContext\<close> before
  the client is resolved: the client attached to the context keeps its five seconds.
\<close>

theorem Request_Do_timeout_counterexample:
  "timeout (WithTimeout 10000000000 (New :: (nat, nat) Request)) = Some 10000000000
   \<and> Timeout (clients (snd (Request_Do anyURL (WithTimeout 10000000000 (New :: (nat, nat) Request))
          exampleCtx ''BAD METHOD'' ''http://localhost'' exampleWorld)) (clientFromContext exampleCtx))
       = 5000000000
   \<and> (5000000000 :: Duration) \<noteq> 10000000000"
  by (simp add: world_eval WithTimeout_def)

text \<open>
  C3, amended. When the request can be built from the method, the URL and the body,
  a send on a builder with the override \<open>d\<close> leaves a heap of clients that is the one
  before with \<open>d\<close> written to the \<^verbatim>\<open>Timeout\<close> of the client resolved from the context,
  and nothing else changed; a later send through the same client by a builder without
  an override is made under \<open>d\<close>. A send on a builder without an override leaves the heap
  of clients as it was. When the request cannot be built, the send returns that error
  and the world as it was.
\<close>

theorem Request_Do_timeout:
  "(timeout r = Some d \<and> NewRequestWithContext urlParse method url (body r) = Inr rq \<longrightarrow>
      clients (snd (Request_Do urlParse r ctx method url w))
        = (clients w)(clientFromContext ctx := (clients w (clientFromContext ctx))\<lparr>Timeout := d\<rparr>)
      \<and> (timeout r2 = None \<and> clientFromContext ctx2 = clientFromContext ctx
           \<and> NewRequestWithContext urlParse2 method2 url2 (body r2) = Inr rq2 \<longrightarrow>
          fst (last (sent (snd (Request_Do urlParse2 r2 ctx2 method2 url2
                 (snd (Request_Do urlParse r ctx method url w)))))) = d))
   \<and> (timeout r = None \<longrightarrow> clients (snd (Request_Do urlParse r ctx method url w)) = clients w)
   \<and> (NewRequestWithContext urlParse method url (body r) = Inl err \<longrightarrow>
        Request_Do urlParse r ctx method url w = (Inl err, w))"
proof (intro conjI impI)
  assume h: "timeout r = Some d \<and> NewRequestWithContext urlParse method url (body r) = Inr rq"
  then show c: "clients (snd (Request_Do urlParse r ctx method url w))
        = (clients w)(clientFromContext ctx := (clients w (clientFromContext ctx))\<lparr>Timeout := d\<rparr>)"
    by (simp add: Request_Do_clients)
  assume h2: "timeout r2 = None \<and> clientFromContext ctx2 = clientFromContext ctx
           \<and> NewRequestWithContext urlParse2 method2 url2 (body r2) = Inr rq2"
  then show "fst (last (sent (snd (Request_Do urlParse2 r2 ctx2 method2 url2
                 (snd (Request_Do urlParse r ctx method url w)))))) = d"
    by (simp add: Request_Do_sent c)
next
  assume "timeout r = None"
  then show "clients (snd (Request_Do urlParse r ctx method url w)) = clients w"
    by (simp add: Request_Do_clients split: sum.splits)
next
  assume "NewRequestWithContext urlParse method url (body r) = Inl err"
  then show "Request_Do urlParse r ctx method url w = (Inl err, w)"
    by (simp add: Request_Do_def)
qed

theorem Request_Do_timeout_witness:
  "Timeout (clients (snd (Request_Do anyURL (WithTimeout 10000000000 New) exampleCtx
       ''POST'' ''http://localhost'' exampleWorld)) 1) = 10000000000
   \<and> Timeout (clients (snd (Request_Do anyURL (WithTimeout 10000000000 New) exampleCtx
       ''POST'' ''http://localhost'' exampleWorld)) 2) = 5000000000
   \<and> fst (last (sent (snd (Request_Do anyURL New exampleCtx ''GET'' ''http://localhost''
       (snd (Request_Do anyURL (WithTimeout 10000000000 New) exampleCtx
          ''POST'' ''http://localhost'' exampleWorld)))))) = 10000000000
   \<and> Timeout (clients (snd (Request_Do anyURL New exampleCtx
       ''GET'' ''http://localhost'' exampleWorld)) 1) = 5000000000"
proof -
  let ?r = "WithTimeout 10000000000 (New :: (nat, nat) Request)"
  let ?n = "New :: (nat, nat) Request"
  let ?rq = "\<lparr>Method = ''POST'', URL = ''http://localhost'', ReqHeader = Map.empty, ReqBody = None\<rparr>
      :: (nat, nat) HTTPRequest"
  let ?rq2 = "\<lparr>Method = ''GET'', URL = ''http://localhost'', ReqHeader = Map.empty, ReqBody = None\<rparr>
      :: (nat, nat) HTTPRequest"
  have t: "timeout ?r = Some 10000000000" and n: "timeout ?n = None"
    by (simp_all add: WithTimeout_def New_def)
  have q: "NewRequestWithContext anyURL ''POST'' ''http://localhost'' (body ?r) = Inr ?rq"
    by (simp add: world_eval WithTimeout_def)
  have q2: "NewRequestWithContext anyURL ''GET'' ''http://localhost'' (body ?n) = Inr ?rq2"
    by (simp add: world_eval)
  have c: "clientFromContext exampleCtx = 1"
    by (simp add: clientFromContext_def exampleCtx_def)
  from Request_Do_timeout [of ?r "10000000000" anyURL "''POST''" "''http://localhost''" ?rq
        exampleCtx exampleWorld ?n exampleCtx anyURL "''GET''" "''http://localhost''" ?rq2]
       Request_Do_timeout [of ?n _ anyURL "''GET''" "''http://localhost''" _
        exampleCtx exampleWorld]
       t n q q2 c
  show ?thesis by (simp add: exampleWorld_def exampleClient_def)
qed

subsection \<open>Sequences of body-setting calls\<close>

lemma callBodies_append:
  "callBodies (xs @ ys) r = callBodies ys (callBodies xs r)"
  by (induction xs arbitrary: r) simp_all

lemma body_callBody:
  "body (callBody c r) = body (callBody c r0)"
  by (cases c) (simp_all add: WithBody_def WithJSONBody_def WithXMLBody_def)

lemma header_callBodies_WithBody:
  "list_all is_CallWithBody cs \<Longrightarrow> header (callBodies cs r) = header r"
  by (induction cs arbitrary: r) (auto simp add: WithBody_def is_CallWithBody_def)

lemma ContentType_callBody:
  "\<not> is_CallWithBody c \<Longrightarrow>
     Values_h (header (callBody c r)) ''Content-Type'' = Values_h (header (callBody c r0)) ''Content-Type''"
  by (cases c) (simp_all add: WithJSONBody_def WithXMLBody_def Values_Set_h)

lemma Request_Do_sent_cases:
  "sent (snd (Request_Do urlParse r ctx method url w)) = sent w
   \<or> (\<exists>d rq. sent (snd (Request_Do urlParse r ctx method url w)) = sent w @ [(d, rq)]
         \<and> ReqBody rq = body r \<and> ReqHeader rq = header r)"
  by (auto simp add: Request_Do_sent NewRequestWithContext_def Let_def split: sum.splits option.splits if_splits)

text \<open>
  C10. After any sequence of \<^verbatim>\<open>WithBody\<close>, \<^verbatim>\<open>WithJSONBody\<close> and \<^verbatim>\<open>WithXMLBody\<close> calls
  ending with the call \<open>c\<close>, the body of the builder is the one \<open>c\<close> installs (on
  whatever builder \<open>r0\<close>), and a send hands the client either nothing or one request,
  whose body is that one and whose header is the builder's. The Content-Type is the
  one set by the last \<^verbatim>\<open>WithJSONBody\<close> or \<^verbatim>\<open>WithXMLBody\<close> call \<open>c'\<close>, when only
  \<^verbatim>\<open>WithBody\<close> calls follow it; a sequence of \<^verbatim>\<open>WithBody\<close> calls alone leaves the
  Content-Type as it was.
\<close>

theorem body_calls_last_wins:
  "body (callBodies (cs @ [c]) r) = body (callBody c r0)
   \<and> (sent (snd (Request_Do urlParse (callBodies (cs @ [c]) r) ctx method url w)) = sent w
      \<or> (\<exists>d rq. sent (snd (Request_Do urlParse (callBodies (cs @ [c]) r) ctx method url w))
                  = sent w @ [(d, rq)]
           \<and> ReqBody rq = body (callBody c r0)
           \<and> ReqHeader rq = header (callBodies (cs @ [c]) r)))
   \<and> (\<not> is_CallWithBody c' \<and> list_all is_CallWithBody cs2 \<longrightarrow>
        Values_h (header (callBodies (cs1 @ c' # cs2) r)) ''Content-Type''
          = Values_h (header (callBody c' r0)) ''Content-Type'')
   \<and> (list_all is_CallWithBody cs3 \<longrightarrow>
        Values_h (header (callBodies cs3 r)) ''Content-Type'' = Values_h (header r) ''Content-Type'')
   \<and> Values_h (header (callBody (CallWithJSONBody v) r)) ''Content-Type'' = [''application/json'']
   \<and> Values_h (header (callBody (CallWithXMLBody v) r)) ''Content-Type'' = [''application/xml'']"
proof -
  have b: "body (callBodies (cs @ [c]) r) = body (callBody c r0)"
    using body_callBody [of c "callBodies cs r" r0] by (simp add: callBodies_append)
  have s: "sent (snd (Request_Do urlParse (callBodies (cs @ [c]) r) ctx method url w)) = sent w
      \<or> (\<exists>d rq. sent (snd (Request_Do urlParse (callBodies (cs @ [c]) r) ctx method url w))
                  = sent w @ [(d, rq)]
           \<and> ReqBody rq = body (callBody c r0)
           \<and> ReqHeader rq = header (callBodies (cs @ [c]) r))"
    using Request_Do_sent_cases [of urlParse "callBodies (cs @ [c]) r" ctx "method" url w] b
    by simp
  have t: "\<not> is_CallWithBody c' \<and> list_all is_CallWithBody cs2 \<longrightarrow>
        Values_h (header (callBodies (cs1 @ c' # cs2) r)) ''Content-Type''
          = Values_h (header (callBody c' r0)) ''Content-Type''"
    using ContentType_callBody [of c' "callBodies cs1 r" r0]
    by (simp add: callBodies_append header_callBodies_WithBody)
  have u: "list_all is_CallWithBody cs3 \<longrightarrow>
        Values_h (header (callBodies cs3 r)) ''Content-Type'' = Values_h (header r) ''Content-Type''"
    by (simp add: header_callBodies_WithBody)
  have j: "Values_h (header (callBody (CallWithJSONBody v) r)) ''Content-Type'' = [''application/json'']"
    by (simp add: WithJSONBody_def jsonMIME_def Values_Set_h)
  have x: "Values_h (header (callBody (CallWithXMLBody v) r)) ''Content-Type'' = [''application/xml'']"
    by (simp add: WithXMLBody_def xmlMIME_def Values_Set_h)
  from b s t u j x show ?thesis by blast
qed

theorem body_calls_last_wins_witness:
  "body (callBodies [CallWithXMLBody 3, CallWithJSONBody 4, CallWithBody (Some (Reader 7))]
          (New :: (nat, nat) Request)) = Some (Reader 7)
   \<and> Values_h (header (callBodies [CallWithXMLBody 3, CallWithJSONBody 4, CallWithBody (Some (Reader 7))]
          (New :: (nat, nat) Request))) ''Content-Type'' = [''application/json'']
   \<and> map (ReqBody \<circ> snd) (sent (snd (Request_Do anyURL
          (callBodies [CallWithXMLBody 3, CallWithJSONBody 4, CallWithBody (Some (Reader 7))]
             (New :: (nat, nat) Request)) exampleCtx ''POST'' ''http://localhost'' exampleWorld)))
       = [Some (Reader 7)]"
proof -
  let ?n = "New :: (nat, nat) Request"
  have w: "list_all is_CallWithBody [CallWithBody (Some (Reader 7)) :: (nat, nat) BodyCall]"
    and j: "\<not> is_CallWithBody (CallWithJSONBody 4 :: (nat, nat) BodyCall)"
    by simp_all
  have e: "map (ReqBody \<circ> snd) (sent (snd (Request_Do anyURL
          (callBodies [CallWithXMLBody 3, CallWithJSONBody 4, CallWithBody (Some (Reader 7))] ?n)
          exampleCtx ''POST'' ''http://localhost'' exampleWorld))) = [Some (Reader 7)]"
    by (simp add: Request_Do_sent world_eval WithBody_def WithJSONBody_def WithXMLBody_def)
  from body_calls_last_wins [of "[CallWithXMLBody 3, CallWithJSONBody 4]"
         "CallWithBody (Some (Reader 7))" ?n ?n anyURL exampleCtx "''POST''" "''http://localhost''"
         exampleWorld "CallWithJSONBody 4" "[CallWithBody (Some (Reader 7))]" "[CallWithXMLBody 3]"
         "[]" 4] w j e
  show ?thesis by (simp add: WithBody_def)
qed

subsection \<open>Base64: the code against RFC 4648\<close>

text \<open>
  Each character \<^const>\<open>Encode\<close> emits is the character RFC 4648 assigns to the same six
  bits: both are the alphabet at six bits of the 24-bit group, cut out by shifts and a
  mask in the code and read off the bit stream in the specification.
\<close>

lemma bit_bitsToNat:
  "bit (bitsToNat bs) n \<longleftrightarrow> n < length bs \<and> rev bs ! n"
  unfolding bitsToNat_def bit_horner_sum_bit_iff by simp

lemma bitsToNat6:
  "bitsToNat [bit N (k + 5), bit N (k + 4), bit N (k + 3), bit N (k + 2), bit N (k + 1), bit N k]
     = take_bit 6 (drop_bit k (N :: nat))"
proof (rule bit_eqI)
  fix n :: nat
  have e: "n < 6 \<Longrightarrow> n = 0 \<or> n = 1 \<or> n = 2 \<or> n = 3 \<or> n = 4 \<or> n = 5" by arith
  show "bit (bitsToNat [bit N (k + 5), bit N (k + 4), bit N (k + 3), bit N (k + 2), bit N (k + 1), bit N k]) n
      = bit (take_bit 6 (drop_bit k N)) n"
  proof (cases "n < 6")
    case False
    then show ?thesis
      by (simp add: bit_bitsToNat bit_take_bit_iff)
  next
    case True
    from e [OF True] show ?thesis
      by (elim disjE) (simp_all add: bit_bitsToNat bit_take_bit_iff bit_drop_bit_eq add.commute)
  qed
qed

lemma unat_sextet:
  assumes "k \<le> 58"
  shows "unat (drop_bit k (of_nat N :: uint) AND 0x3F) = take_bit 6 (drop_bit k N)"
proof -
  have m: "(0x3F :: uint) = mask 6" by (simp add: mask_eq_exp_minus_1)
  have "unat (drop_bit k (of_nat N :: uint) AND mask 6) = take_bit 6 (drop_bit k N)"
  proof (rule bit_eqI)
    fix n
    show "bit (unat (drop_bit k (of_nat N :: uint) AND mask 6)) n = bit (take_bit 6 (drop_bit k N)) n"
      using assms
      by (auto simp add: bit_unsigned_iff bit_and_iff bit_mask_iff bit_drop_bit_eq bit_of_nat_iff
          bit_take_bit_iff dest: bit_imp_le_length)
  qed
  with m show ?thesis by simp
qed

lemma bit_of_char_high:
  "8 \<le> m \<Longrightarrow> \<not> bit (of_char c :: nat) m"
proof -
  have "of_char c = take_bit 8 (of_char c :: nat)"
    by (simp add: take_bit_eq_mod)
  then have "bit (of_char c :: nat) m = bit (take_bit 8 (of_char c :: nat)) m"
    by simp
  then show "8 \<le> m \<Longrightarrow> \<not> bit (of_char c :: nat) m"
    by (simp add: bit_take_bit_iff)
qed

lemma of_char_NUL_nat: "(of_char NUL :: nat) = 0"
  by (simp add: NUL_def)

lemma of_char_NUL_word: "(of_char NUL :: uint) = 0"
proof -
  have "(of_char NUL :: uint) = of_nat (of_char NUL)"
    by (simp only: of_nat_of_char)
  then show ?thesis by (simp add: of_char_NUL_nat)
qed

lemma bit_group24:
  "bit (group24 a b c) n \<longleftrightarrow>
     (if n < 8 then bit (of_char c :: nat) n
      else if n < 16 then bit (of_char b :: nat) (n - 8)
      else bit (of_char a :: nat) (n - 16))"
  by (auto simp add: group24_def bit_or_iff bit_push_bit_iff bit_of_char_high)

lemma word_group24:
  "push_bit 16 (of_char a :: uint) OR push_bit 8 (of_char b) OR of_char c = of_nat (group24 a b c)"
proof -
  have "(of_nat (group24 a b c) :: uint)
      = of_nat (push_bit 16 (of_char a)) OR of_nat (push_bit 8 (of_char b)) OR of_nat (of_char c)"
    by (simp add: group24_def of_nat_or_eq)
  also have "\<dots> = push_bit 16 (of_nat (of_char a)) OR push_bit 8 (of_nat (of_char b)) OR of_nat (of_char c)"
    by (simp only: push_bit_of_nat)
  also have "\<dots> = push_bit 16 (of_char a) OR push_bit 8 (of_char b) OR of_char c"
    by (simp only: of_nat_of_char)
  finally show ?thesis by simp
qed

lemma encode_group24:
  "k \<le> 58 \<Longrightarrow>
     encode (drop_bit k (push_bit 16 (of_char a :: uint) OR push_bit 8 (of_char b) OR of_char c) AND 0x3F)
       = encodeStd ! take_bit 6 (drop_bit k (group24 a b c))"
  unfolding word_group24 encode_def by (simp only: unat_sextet)

lemma sextet1:
  "bitsToNat [bit (of_char a :: nat) 7, bit (of_char a :: nat) 6, bit (of_char a :: nat) 5,
              bit (of_char a :: nat) 4, bit (of_char a :: nat) 3, bit (of_char a :: nat) 2]
     = take_bit 6 (drop_bit 18 (group24 a b c))"
  using bitsToNat6 [of "group24 a b c" 18] by (simp add: bit_group24)

lemma sextet2:
  "bitsToNat [bit (of_char a :: nat) 1, bit (of_char a :: nat) 0, bit (of_char b :: nat) 7,
              bit (of_char b :: nat) 6, bit (of_char b :: nat) 5, bit (of_char b :: nat) 4]
     = take_bit 6 (drop_bit 12 (group24 a b c))"
  using bitsToNat6 [of "group24 a b c" 12] by (simp add: bit_group24)

lemma sextet3:
  "bitsToNat [bit (of_char b :: nat) 3, bit (of_char b :: nat) 2, bit (of_char b :: nat) 1,
              bit (of_char b :: nat) 0, bit (of_char c :: nat) 7, bit (of_char c :: nat) 6]
     = take_bit 6 (drop_bit 6 (group24 a b c))"
  using bitsToNat6 [of "group24 a b c" 6] by (simp add: bit_group24)

lemma sextet4:
  "bitsToNat [bit (of_char c :: nat) 5, bit (of_char c :: nat) 4, bit (of_char c :: nat) 3,
              bit (of_char c :: nat) 2, bit (of_char c :: nat) 1, bit (of_char c :: nat) 0]
     = take_bit 6 (drop_bit 0 (group24 a b c))"
  using bitsToNat6 [of "group24 a b c" 0] by (simp add: bit_group24 numeral_2_eq_2)

lemma replicate_2_4:
  "replicate 2 x = [x, x]" "replicate 4 x = [x, x, x, x]"
  by (simp_all add: numeral_eq_Suc)

lemma pad4_Cons4:
  "pad4 (w # x # y # z # cs) = w # x # y # z # pad4 cs"
  by (simp add: pad4_def)

lemma rfc4648_base64_3:
  "rfc4648_base64 (a # b # c # rest) =
     encodeStd ! take_bit 6 (drop_bit 18 (group24 a b c)) #
     encodeStd ! take_bit 6 (drop_bit 12 (group24 a b c)) #
     encodeStd ! take_bit 6 (drop_bit 6 (group24 a b c)) #
     encodeStd ! take_bit 6 (drop_bit 0 (group24 a b c)) # rfc4648_base64 rest"
proof -
  have "rfc4648_base64 (a # b # c # rest) =
     encodeStd ! bitsToNat [bit (of_char a :: nat) 7, bit (of_char a :: nat) 6, bit (of_char a :: nat) 5,
              bit (of_char a :: nat) 4, bit (of_char a :: nat) 3, bit (of_char a :: nat) 2] #
     encodeStd ! bitsToNat [bit (of_char a :: nat) 1, bit (of_char a :: nat) 0, bit (of_char b :: nat) 7,
              bit (of_char b :: nat) 6, bit (of_char b :: nat) 5, bit (of_char b :: nat) 4] #
     encodeStd ! bitsToNat [bit (of_char b :: nat) 3, bit (of_char b :: nat) 2, bit (of_char b :: nat) 1,
              bit (of_char b :: nat) 0, bit (of_char c :: nat) 7, bit (of_char c :: nat) 6] #
     encodeStd ! bitsToNat [bit (of_char c :: nat) 5, bit (of_char c :: nat) 4, bit (of_char c :: nat) 3,
              bit (of_char c :: nat) 2, bit (of_char c :: nat) 1, bit (of_char c :: nat) 0] #
     rfc4648_base64 rest"
    by (simp add: rfc4648_base64_def bitsOfByte_def pad4_Cons4)
  then show ?thesis
    by (simp only: sextet1 [where a = a and b = b and c = c] sextet2 [where a = a and b = b and c = c] sextet3 [where a = a and b = b and c = c] sextet4 [where a = a and b = b and c = c])
qed

lemma rfc4648_base64_2:
  "rfc4648_base64 [a, b] =
     [encodeStd ! take_bit 6 (drop_bit 18 (group24 a b NUL)),
      encodeStd ! take_bit 6 (drop_bit 12 (group24 a b NUL)),
      encodeStd ! take_bit 6 (drop_bit 6 (group24 a b NUL)), CHR ''='']"
proof -
  have "rfc4648_base64 [a, b] =
     [encodeStd ! bitsToNat [bit (of_char a :: nat) 7, bit (of_char a :: nat) 6, bit (of_char a :: nat) 5,
              bit (of_char a :: nat) 4, bit (of_char a :: nat) 3, bit (of_char a :: nat) 2],
      encodeStd ! bitsToNat [bit (of_char a :: nat) 1, bit (of_char a :: nat) 0, bit (of_char b :: nat) 7,
              bit (of_char b :: nat) 6, bit (of_char b :: nat) 5, bit (of_char b :: nat) 4],
      encodeStd ! bitsToNat [bit (of_char b :: nat) 3, bit (of_char b :: nat) 2, bit (of_char b :: nat) 1,
              bit (of_char b :: nat) 0, bit (of_char NUL :: nat) 7, bit (of_char NUL :: nat) 6],
      CHR ''='']"
    by (simp add: rfc4648_base64_def bitsOfByte_def pad4_def of_char_NUL_nat replicate_2_4)
  then show ?thesis
    by (simp only: sextet1 [where a = a and b = b and c = NUL] sextet2 [where a = a and b = b and c = NUL] sextet3 [where a = a and b = b and c = NUL] sextet4 [where a = a and b = b and c = NUL])
qed

lemma rfc4648_base64_1:
  "rfc4648_base64 [a] =
     [encodeStd ! take_bit 6 (drop_bit 18 (group24 a NUL NUL)),
      encodeStd ! take_bit 6 (drop_bit 12 (group24 a NUL NUL)), CHR ''='', CHR ''='']"
proof -
  have "rfc4648_base64 [a] =
     [encodeStd ! bitsToNat [bit (of_char a :: nat) 7, bit (of_char a :: nat) 6, bit (of_char a :: nat) 5,
              bit (of_char a :: nat) 4, bit (of_char a :: nat) 3, bit (of_char a :: nat) 2],
      encodeStd ! bitsToNat [bit (of_char a :: nat) 1, bit (of_char a :: nat) 0, bit (of_char NUL :: nat) 7,
              bit (of_char NUL :: nat) 6, bit (of_char NUL :: nat) 5, bit (of_char NUL :: nat) 4],
      CHR ''='', CHR ''='']"
    by (simp add: rfc4648_base64_def bitsOfByte_def pad4_def of_char_NUL_nat replicate_2_4)
  then show ?thesis
    by (simp only: sextet1 [where a = a and b = NUL and c = NUL] sextet2 [where a = a and b = NUL and c = NUL] sextet3 [where a = a and b = NUL and c = NUL] sextet4 [where a = a and b = NUL and c = NUL])
qed

lemma Encode_3:
  "Encode (a # b # c # rest) =
     encodeStd ! take_bit 6 (drop_bit 18 (group24 a b c)) #
     encodeStd ! take_bit 6 (drop_bit 12 (group24 a b c)) #
     encodeStd ! take_bit 6 (drop_bit 6 (group24 a b c)) #
     encodeStd ! take_bit 6 (drop_bit 0 (group24 a b c)) # Encode rest"
  using encode_group24 [of 18 a b c] encode_group24 [of 12 a b c] encode_group24 [of 6 a b c]
        encode_group24 [of 0 a b c]
  by (simp add: Let_def)

lemma Encode_2:
  "Encode [a, b] =
     [encodeStd ! take_bit 6 (drop_bit 18 (group24 a b NUL)),
      encodeStd ! take_bit 6 (drop_bit 12 (group24 a b NUL)),
      encodeStd ! take_bit 6 (drop_bit 6 (group24 a b NUL)), CHR ''='']"
  using encode_group24 [of 18 a b NUL] encode_group24 [of 12 a b NUL] encode_group24 [of 6 a b NUL]
  by (simp add: Let_def of_char_NUL_word StdPadding_def)

lemma Encode_1:
  "Encode [a] =
     [encodeStd ! take_bit 6 (drop_bit 18 (group24 a NUL NUL)),
      encodeStd ! take_bit 6 (drop_bit 12 (group24 a NUL NUL)), CHR ''='', CHR ''='']"
  using encode_group24 [of 18 a NUL NUL] encode_group24 [of 12 a NUL NUL]
  by (simp add: Let_def of_char_NUL_word StdPadding_def)

lemma Encode_rfc4648:
  "Encode s = rfc4648_base64 s"
proof (induction s rule: Encode.induct)
  case (1 a b c rest)
  then show ?case by (simp only: Encode_3 rfc4648_base64_3)
next
  case (2 a b)
  show ?case by (simp only: Encode_2 rfc4648_base64_2)
next
  case (3 a)
  show ?case by (simp only: Encode_1 rfc4648_base64_1)
next
  case 4
  show ?case by (simp add: rfc4648_base64_def pad4_def)
qed

subsection \<open>Basic authentication\<close>

text \<open>
  C1. For every username and password and every builder, after \<^verbatim>\<open>WithBasicAuth\<close> the
  Authorization header holds exactly one value: \<^verbatim>\<open>Basic \<close> followed by the padded
  base64 encoding, as RFC 4648 defines it, of the username, a colon and the password.
  For \<^verbatim>\<open>username\<close> and \<^verbatim>\<open>password\<close> it is \<^verbatim>\<open>Basic dXNlcm5hbWU6cGFzc3dvcmQ=\<close>.
\<close>

theorem WithBasicAuth_header:
  "Values_h (header (WithBasicAuth username password r)) ''Authorization''
     = [''Basic '' @ rfc4648_base64 (username @ '':'' @ password)]
   \<and> Get_h (header (WithBasicAuth username password r)) ''Authorization''
     = ''Basic '' @ rfc4648_base64 (username @ '':'' @ password)
   \<and> Values_h (header (WithBasicAuth ''username'' ''password'' r)) ''Authorization''
     = [''Basic dXNlcm5hbWU6cGFzc3dvcmQ='']"
proof -
  have v: "Encode ''username:password'' = ''dXNlcm5hbWU6cGFzc3dvcmQ=''"
    by (simp add: encode_def encodeStd_def StdPadding_def Let_def)
  have a: "Values_h (header (WithBasicAuth u p r)) ''Authorization''
      = [''Basic '' @ Encode (u @ '':'' @ p)]" for u p
    by (simp add: WithBasicAuth_def EncodeToString_def Let_def Values_Set_h)
  have g: "Get_h (header (WithBasicAuth username password r)) ''Authorization''
      = ''Basic '' @ Encode (username @ '':'' @ password)"
    by (simp add: WithBasicAuth_def EncodeToString_def Let_def Get_Set_h)
  from a [of username password] a [of "''username''" "''password''"] g v
  show ?thesis by (simp add: Encode_rfc4648)
qed

end
